theory Spec2Isabelle
  imports Main
begin

section \<open>HttpClient.ts: a client for the MediaWiki action API\<close>

text \<open>
  The development embeds \<^verbatim>\<open>src/HttpClient.ts\<close>: the serialisation of a parameter
  object into search parameters (\<^verbatim>\<open>toValues\<close>, \<^verbatim>\<open>createSearchParams\<close>), the checks of
  the response envelope (\<^verbatim>\<open>checkWarnings\<close>, \<^verbatim>\<open>checkErrors\<close>), the three requests
  (\<^verbatim>\<open>get\<close>, \<^verbatim>\<open>post\<close>, \<^verbatim>\<open>query\<close>) and the construction of the client
  (\<^verbatim>\<open>getUserAgent\<close>). Exceptions are values of a sum type, with \<open>Inl\<close> the thrown
  error; the console, the requests handed to the HTTP library and the state behind that
  library are passed explicitly.
\<close>

subsection \<open>Values of the parameter object\<close>

text \<open>
  \<^verbatim>\<open>type Primitive = string | number | boolean | Date | null | undefined\<close>.
  The client does one thing with a number, \<^verbatim>\<open>String(n)\<close>, and one thing with a date,
  \<^verbatim>\<open>d.toISOString()\<close>. A number is therefore represented by its \<^verbatim>\<open>String\<close> form, and
  a date by the outcome of \<^verbatim>\<open>toISOString\<close>: the ISO-8601 text, or \<open>None\<close> for an
  invalid date (time value NaN), on which \<^verbatim>\<open>toISOString\<close> throws a RangeError.
  JavaScript strings are modelled as \<open>string\<close>.
\<close>

datatype number = Number (String_number: string)

datatype date = Date (toISOString: "string option")

datatype primitive =
    PString string
  | PNumber number
  | PBoolean bool
  | PDate date
  | PNull
  | PUndefined

text \<open>\<^verbatim>\<open>T | T[]\<close>: a single value or an array of values (arrays are dense).\<close>

datatype 'a one_or_array = Single 'a | Array "'a list"

text \<open>
  \<^verbatim>\<open>Record<string, Primitive | Primitive[]>\<close>: the entries of the object in the order
  in which \<^verbatim>\<open>for (const key in params)\<close> enumerates them. The keys of an object are
  distinct; theorems that depend on it say so.
\<close>

type_synonym params = "(string \<times> primitive one_or_array) list"

text \<open>
  What can be thrown: the \<^verbatim>\<open>Error\<close> of \<^verbatim>\<open>checkErrors\<close>, the RangeError of
  \<^verbatim>\<open>toISOString\<close>, the TypeError of a property read on \<^verbatim>\<open>undefined\<close> or
  \<^verbatim>\<open>null\<close>, the SyntaxError of \<^verbatim>\<open>JSON.parse\<close>, the error of a failed file read,
  and whatever the HTTP library rejects with.
\<close>

datatype error =
    Error string
  | RangeError string
  | TypeError string
  | SyntaxError string
  | SystemError string
  | RequestError string

subsection \<open>\<^verbatim>\<open>toValues\<close>\<close>

definition US :: char where
  "US = CHR 0x1F"

text \<open>\<^verbatim>\<open>strings.join(separator)\<close> on an array of strings.\<close>

fun join :: "string \<Rightarrow> string list \<Rightarrow> string" where
  "join separator [] = []"
| "join separator [s] = s"
| "join separator (s # t # ts) = s @ separator @ join separator (t # ts)"

text \<open>\<^verbatim>\<open>value.includes('|')\<close>.\<close>

definition includes_pipe :: "string \<Rightarrow> bool" where
  "includes_pipe v = (CHR ''|'' \<in> set v)"

text \<open>
  The only call of \<^verbatim>\<open>toValues\<close> passes what \<^verbatim>\<open>convert\<close> returned, a string or an
  array of strings, on which \<^verbatim>\<open>String\<close> is the identity.
\<close>

fun toValues :: "string one_or_array \<Rightarrow> string" where
  "toValues (Array strings) =
     (if list_ex includes_pipe strings then [US] @ join [US] strings
      else join ''|'' strings)"
| "toValues (Single v) = (if includes_pipe v then [US] @ v else v)"

subsection \<open>\<^verbatim>\<open>URLSearchParams\<close>\<close>

text \<open>
  A \<^verbatim>\<open>URLSearchParams\<close> object is its list of name/value pairs. \<^verbatim>\<open>set(name, value)\<close>
  gives the first pair of that name the new value and removes the other pairs of that
  name, or appends the pair when there is none. \<^verbatim>\<open>get(name)\<close> is the value of the
  first pair of that name, \<^verbatim>\<open>getAll(name)\<close> the values of all of them,
  \<^verbatim>\<open>has(name)\<close> whether there is one.
\<close>

type_synonym search_params = "(string \<times> string) list"

fun search_set :: "string \<Rightarrow> string \<Rightarrow> search_params \<Rightarrow> search_params" where
  "search_set name v [] = [(name, v)]"
| "search_set name v (p # ps) =
     (if fst p = name then (name, v) # filter (\<lambda>q. fst q \<noteq> name) ps
      else p # search_set name v ps)"

definition search_get :: "search_params \<Rightarrow> string \<Rightarrow> string option" where
  "search_get search name = map_of search name"

definition search_getAll :: "search_params \<Rightarrow> string \<Rightarrow> string list" where
  "search_getAll search name = map snd (filter (\<lambda>p. fst p = name) search)"

definition search_has :: "search_params \<Rightarrow> string \<Rightarrow> bool" where
  "search_has search name = (name \<in> set (map fst search))"

subsection \<open>\<^verbatim>\<open>createSearchParams\<close>\<close>

text \<open>
  The local function \<^verbatim>\<open>convert\<close>: a boolean gives the empty string, a date its
  ISO text (or the RangeError of \<^verbatim>\<open>toISOString\<close>), anything else \<^verbatim>\<open>String(value)\<close>.
\<close>

fun convert :: "primitive \<Rightarrow> error + string" where
  "convert (PBoolean b) = Inr []"
| "convert (PDate d) =
     (case toISOString d of
        None \<Rightarrow> Inl (RangeError ''Invalid time value'')
      | Some isoText \<Rightarrow> Inr isoText)"
| "convert (PString s) = Inr s"
| "convert (PNumber n) = Inr (String_number n)"
| "convert PNull = Inr ''null''"
| "convert PUndefined = Inr ''undefined''"

text \<open>\<^verbatim>\<open>value.map(convert)\<close>: the first element on which \<^verbatim>\<open>convert\<close> throws ends the map.\<close>

fun map_convert :: "primitive list \<Rightarrow> error + string list" where
  "map_convert [] = Inr []"
| "map_convert (x # xs) =
     (case convert x of
        Inl e \<Rightarrow> Inl e
      | Inr s \<Rightarrow> (case map_convert xs of Inl e \<Rightarrow> Inl e | Inr ss \<Rightarrow> Inr (s # ss)))"

text \<open>\<^verbatim>\<open>value == null || (typeof value === 'boolean' && value === false)\<close>.\<close>

fun skipped :: "primitive one_or_array \<Rightarrow> bool" where
  "skipped (Single PNull) = True"
| "skipped (Single PUndefined) = True"
| "skipped (Single (PBoolean b)) = (\<not> b)"
| "skipped v = False"

text \<open>\<^verbatim>\<open>Array.isArray(value) ? value.map(convert) : convert(value)\<close>.\<close>

fun convert_value :: "primitive one_or_array \<Rightarrow> error + string one_or_array" where
  "convert_value (Array xs) =
     (case map_convert xs of Inl e \<Rightarrow> Inl e | Inr ss \<Rightarrow> Inr (Array ss))"
| "convert_value (Single x) =
     (case convert x of Inl e \<Rightarrow> Inl e | Inr s \<Rightarrow> Inr (Single s))"

text \<open>The \<^verbatim>\<open>for (const key in params)\<close> loop, on the entries still to visit.\<close>

fun params_loop :: "params \<Rightarrow> search_params \<Rightarrow> error + search_params" where
  "params_loop [] search = Inr search"
| "params_loop ((key, v) # rest) search =
     (if skipped v then params_loop rest search
      else (case convert_value v of
              Inl e \<Rightarrow> Inl e
            | Inr c \<Rightarrow> params_loop rest (search_set key (toValues c) search)))"

definition createSearchParams :: "params \<Rightarrow> error + search_params" where
  "createSearchParams params =
     (case params_loop params [] of
        Inl e \<Rightarrow> Inl e
      | Inr search \<Rightarrow>
          Inr (search_set ''errorformat'' ''plaintext''
                (search_set ''formatversion'' ''2''
                  (search_set ''format'' ''json'' search))))"

subsection \<open>The response envelope\<close>

text \<open>
  \<^verbatim>\<open>interface MediaWikiError { code: string; text: string; module: string }\<close>
  (\<open>text\<close> is a reserved word of the theory language, hence \<open>text_field\<close>).
\<close>

record MediaWikiError =
  code :: string
  text_field :: string
  module :: string

text \<open>
  The \<^verbatim>\<open>errors\<close> field is declared as an array, and \<^verbatim>\<open>checkErrors\<close> also accepts
  a value that is not an array: a single error object.
\<close>

datatype errors_field = ErrorsArray "MediaWikiError list" | ErrorsObject MediaWikiError

text \<open>
  \<^verbatim>\<open>interface MediaWikiResponseBody\<close>. A field that is absent (or \<^verbatim>\<open>null\<close>, which
  \<^verbatim>\<open>== null\<close> does not tell apart) is \<open>None\<close>. The record is extensible, as the
  interface is: the type parameter \<^verbatim>\<open>R extends MediaWikiResponseBody\<close> of \<^verbatim>\<open>get\<close>
  and \<^verbatim>\<open>post\<close> is a record scheme.
\<close>

record MediaWikiResponseBody =
  warnings :: "MediaWikiError list option"
  errors :: "errors_field option"
  docref :: "string option"

text \<open>
  \<^verbatim>\<open>interface QueryResponseBody<T> extends MediaWikiResponseBody\<close>; its field
  \<^verbatim>\<open>query\<close> is \<open>query_field\<close> here, \<open>query\<close> being the method.
\<close>

record 't QueryResponseBody = MediaWikiResponseBody +
  batchcomplete :: "bool + string"
  query_field :: 't

text \<open>The template \<^verbatim>\<open>`[${e.module}] ${e.code}: ${e.text}`\<close> of both checks.\<close>

definition format_entry :: "MediaWikiError \<Rightarrow> string" where
  "format_entry e = ''['' @ module e @ ''] '' @ code e @ '': '' @ text_field e"

text \<open>
  The console is the list of the calls made on it, oldest first;
  \<^verbatim>\<open>console.warn(chalk.yellow(s))\<close> adds \<open>Warn (Yellow s)\<close>.
\<close>

datatype chalk = Yellow string

datatype console_call = Warn chalk

definition checkWarnings :: "MediaWikiError list option \<Rightarrow> console_call list \<Rightarrow> console_call list" where
  "checkWarnings ws console =
     (case ws of
        None \<Rightarrow> console
      | Some entries \<Rightarrow>
          foldl (\<lambda>out warning. out @ [Warn (Yellow (format_entry warning))]) console entries)"

definition line_feed :: string where
  "line_feed = [CHR 0x0A]"

text \<open>
  \<^verbatim>\<open>const message = (Array.isArray(errors) ? errors : [errors]).map(...).join('\n')\<close>.
\<close>

definition message :: "errors_field \<Rightarrow> string" where
  "message found =
     join line_feed
       (map format_entry
          (case found of ErrorsArray entries \<Rightarrow> entries | ErrorsObject e \<Rightarrow> [e]))"

definition checkErrors :: "errors_field option \<Rightarrow> error + unit" where
  "checkErrors es =
     (case es of
        None \<Rightarrow> Inr ()
      | Some found \<Rightarrow> Inl (Error (message found)))"

subsection \<open>The HTTP library\<close>

text \<open>
  What the client hands to \<^verbatim>\<open>got\<close>: the method, the endpoint, and either
  \<^verbatim>\<open>{ searchParams }\<close> or \<^verbatim>\<open>{ form }\<close>. The form is the plain object that
  \<^verbatim>\<open>Object.fromEntries\<close> builds, a finite map from names to values.
\<close>

datatype http_method = GET | POST

datatype request_options =
    SearchParams search_params
  | Form "string \<rightharpoonup> string"

datatype request = Request http_method string request_options

definition fromEntries :: "(string \<times> string) list \<Rightarrow> (string \<rightharpoonup> string)" where
  "fromEntries entries = foldl (\<lambda>obj (name, v). obj(name \<mapsto> v)) Map.empty entries"

text \<open>
  \<^verbatim>\<open>this.client.get(...).json<R>()\<close> and \<^verbatim>\<open>this.client.post(...).json<R>()\<close>, awaited:
  a function of the request and of the state \<open>'w\<close> behind the library (network, server,
  cookie jar), giving the parsed body or the error the promise rejects with, and the new
  state. The client object holds its endpoint and this function.
\<close>

record ('w, 'r) HttpClient =
  endpoint :: string
  client :: "request \<Rightarrow> 'w \<Rightarrow> (error + 'r) \<times> 'w"

text \<open>
  The state a call runs in: the console, the requests handed to the library so far, and
  the state behind the library.
\<close>

record 'w world =
  console :: "console_call list"
  sent :: "request list"
  net :: 'w

definition send :: "('w, 'r) HttpClient \<Rightarrow> request \<Rightarrow> 'w world \<Rightarrow> (error + 'r) \<times> 'w world" where
  "send this req st =
     (case client this req (net st) of
        (outcome, n) \<Rightarrow> (outcome, st\<lparr>sent := sent st @ [req], net := n\<rparr>))"

subsection \<open>\<^verbatim>\<open>get\<close>, \<^verbatim>\<open>post\<close>, \<^verbatim>\<open>query\<close>\<close>

text \<open>
  Each method builds the search parameters first (a throw there means no request), awaits
  the response, runs \<^verbatim>\<open>checkWarnings\<close>, then \<^verbatim>\<open>checkErrors\<close>, and returns the body.
\<close>

definition get ::
  "('w, 'a MediaWikiResponseBody_scheme) HttpClient \<Rightarrow> params \<Rightarrow> 'w world \<Rightarrow>
     (error + 'a MediaWikiResponseBody_scheme) \<times> 'w world" where
  "get this params st =
     (case createSearchParams params of
        Inl e \<Rightarrow> (Inl e, st)
      | Inr search \<Rightarrow>
          (case send this (Request GET (endpoint this) (SearchParams search)) st of
             (Inl e, st1) \<Rightarrow> (Inl e, st1)
           | (Inr result, st1) \<Rightarrow>
               (let st2 = st1\<lparr>console := checkWarnings (warnings result) (console st1)\<rparr>
                in (case checkErrors (errors result) of
                      Inl e \<Rightarrow> (Inl e, st2)
                    | Inr u \<Rightarrow> (Inr result, st2)))))"

definition post ::
  "('w, 'a MediaWikiResponseBody_scheme) HttpClient \<Rightarrow> params \<Rightarrow> 'w world \<Rightarrow>
     (error + 'a MediaWikiResponseBody_scheme) \<times> 'w world" where
  "post this params st =
     (case createSearchParams params of
        Inl e \<Rightarrow> (Inl e, st)
      | Inr search \<Rightarrow>
          (case send this (Request POST (endpoint this) (Form (fromEntries search))) st of
             (Inl e, st1) \<Rightarrow> (Inl e, st1)
           | (Inr result, st1) \<Rightarrow>
               (let st2 = st1\<lparr>console := checkWarnings (warnings result) (console st1)\<rparr>
                in (case checkErrors (errors result) of
                      Inl e \<Rightarrow> (Inl e, st2)
                    | Inr u \<Rightarrow> (Inr result, st2)))))"

text \<open>
  \<^verbatim>\<open>{ ...params, action: 'query' }\<close>: the entries of \<^verbatim>\<open>params\<close> in their order, the
  property \<^verbatim>\<open>action\<close> overwritten where it stands, or added last.
\<close>

fun object_set :: "string \<Rightarrow> 'v \<Rightarrow> (string \<times> 'v) list \<Rightarrow> (string \<times> 'v) list" where
  "object_set key v [] = [(key, v)]"
| "object_set key v (p # ps) =
     (if fst p = key then (key, v) # ps else p # object_set key v ps)"

definition query ::
  "('w, ('t, 'a) QueryResponseBody_scheme) HttpClient \<Rightarrow> params \<Rightarrow> 'w world \<Rightarrow>
     (error + 't) \<times> 'w world" where
  "query this params st =
     (case get this (object_set ''action'' (Single (PString ''query'')) params) st of
        (Inl e, st1) \<Rightarrow> (Inl e, st1)
      | (Inr result, st1) \<Rightarrow> (Inr (query_field result), st1))"

subsection \<open>\<^verbatim>\<open>URLSearchParams.toString\<close>\<close>

text \<open>
  The \<^verbatim>\<open>application/x-www-form-urlencoded\<close> serialiser of the URL standard, on the
  bytes of the UTF-8 encoding: ASCII letters, digits and \<^verbatim>\<open>*-._\<close> stand for themselves,
  a space becomes \<^verbatim>\<open>+\<close>, any other byte is a percent sign and two upper-case hex digits;
  the pairs are written \<^verbatim>\<open>name=value\<close> and joined by \<^verbatim>\<open>&\<close>.
\<close>

definition hex_digit :: "nat \<Rightarrow> char" where
  "hex_digit n = ''0123456789ABCDEF'' ! (n mod 16)"

definition urlencode_byte :: "char \<Rightarrow> string" where
  "urlencode_byte c =
     (if c \<in> set ''ABCDEFGHIJKLMNOPQRSTUVWXYZabcdefghijklmnopqrstuvwxyz0123456789*-._'' then [c]
      else if c = CHR '' '' then ''+''
      else [CHR ''%'', hex_digit (of_char c div 16), hex_digit (of_char c)])"

definition urlencode :: "string \<Rightarrow> string" where
  "urlencode s = concat (map urlencode_byte s)"

definition search_toString :: "search_params \<Rightarrow> string" where
  "search_toString search =
     join ''&'' (map (\<lambda>(name, v). urlencode name @ ''='' @ urlencode v) search)"

subsection \<open>\<^verbatim>\<open>getUserAgent\<close> and the constructor\<close>

text \<open>What \<^verbatim>\<open>JSON.parse\<close> returns. The members of an object are in source order.\<close>

datatype json =
    JNull
  | JBoolean bool
  | JNumber number
  | JString string
  | JArray "json list"
  | JObject "(string \<times> json) list"

text \<open>
  The files the constructor may read. \<^verbatim>\<open>fs.existsSync(path)\<close> is \<open>files path \<noteq> None\<close>;
  for a path that exists, the entry is the outcome of
  \<^verbatim>\<open>JSON.parse(fs.readFileSync(path).toString())\<close>: the error thrown by the read or by
  the parser, or the parsed value.
\<close>

type_synonym files = "string \<rightharpoonup> error + json"

text \<open>
  \<^verbatim>\<open>value.name\<close> for the names read here (\<^verbatim>\<open>version\<close>, \<^verbatim>\<open>dependencies\<close>,
  \<^verbatim>\<open>got\<close>, none of them a property of a prototype). \<open>None\<close> is \<^verbatim>\<open>undefined\<close>. Reading
  a property of \<^verbatim>\<open>undefined\<close> or \<^verbatim>\<open>null\<close> throws a TypeError; of two members with
  the same name \<^verbatim>\<open>JSON.parse\<close> keeps the later one.
\<close>

fun property :: "json option \<Rightarrow> string \<Rightarrow> error + json option" where
  "property None name =
     Inl (TypeError (''Cannot read properties of undefined (reading '' @ name @ '')''))"
| "property (Some JNull) name =
     Inl (TypeError (''Cannot read properties of null (reading '' @ name @ '')''))"
| "property (Some (JObject members)) name = Inr (map_of (rev members) name)"
| "property (Some other) name = Inr None"

text \<open>
  The string a template literal puts in place of \<^verbatim>\<open>${value}\<close>. An array is its
  elements joined by commas, \<^verbatim>\<open>null\<close> elements as empty strings.
\<close>

fun json_toString :: "json \<Rightarrow> string" where
  "json_toString JNull = ''null''"
| "json_toString (JBoolean b) = (if b then ''true'' else ''false'')"
| "json_toString (JNumber n) = String_number n"
| "json_toString (JString s) = s"
| "json_toString (JArray elements) =
     join '','' (map (\<lambda>x. if x = JNull then [] else json_toString x) elements)"
| "json_toString (JObject members) = ''[object Object]''"

definition template_toString :: "json option \<Rightarrow> string" where
  "template_toString v = (case v of None \<Rightarrow> ''undefined'' | Some j \<Rightarrow> json_toString j)"

text \<open>\<^verbatim>\<open>s.replace('^', '')\<close>: the first \<^verbatim>\<open>^\<close> of the string is removed.\<close>

fun remove_first :: "char \<Rightarrow> string \<Rightarrow> string" where
  "remove_first c [] = []"
| "remove_first c (x # xs) = (if x = c then xs else x # remove_first c xs)"

text \<open>
  \<^verbatim>\<open>value.replace('^', '')\<close>: only a string has the method; on \<^verbatim>\<open>undefined\<close>,
  \<^verbatim>\<open>null\<close> and every other parsed value the call throws a TypeError.
\<close>

fun replace_caret :: "json option \<Rightarrow> error + string" where
  "replace_caret (Some (JString s)) = Inr (remove_first (CHR ''^'') s)"
| "replace_caret None =
     Inl (TypeError ''Cannot read properties of undefined (reading replace)'')"
| "replace_caret (Some JNull) =
     Inl (TypeError ''Cannot read properties of null (reading replace)'')"
| "replace_caret (Some other) = Inl (TypeError ''replace is not a function'')"

text \<open>
  \<open>path\<close> is the value of \<^verbatim>\<open>getRelativePath('../package.json', import.meta.url)\<close>,
  a helper of \<^verbatim>\<open>utils.js\<close>, taken as given. The file is only read when it exists;
  nothing is caught.
\<close>

definition getUserAgent :: "files \<Rightarrow> string \<Rightarrow> error + string" where
  "getUserAgent files path =
     (case files path of
        None \<Rightarrow> Inr ''HuijiMWClient/Unknown''
      | Some (Inl e) \<Rightarrow> Inl e
      | Some (Inr packageJson) \<Rightarrow>
          (case property (Some packageJson) ''version'' of
             Inl e \<Rightarrow> Inl e
           | Inr version \<Rightarrow>
               (case property (Some packageJson) ''dependencies'' of
                  Inl e \<Rightarrow> Inl e
                | Inr dependencies \<Rightarrow>
                    (case property dependencies ''got'' of
                       Inl e \<Rightarrow> Inl e
                     | Inr gotVersion \<Rightarrow>
                         (case replace_caret gotVersion of
                            Inl e \<Rightarrow> Inl e
                          | Inr cleaned \<Rightarrow>
                              Inr (''HuijiMWClient/'' @ template_toString version
                                     @ '' Got/'' @ cleaned))))))"

text \<open>
  The constructor. \<open>got_extend\<close> is \<^verbatim>\<open>got.extend\<close> with a fresh cookie jar, as a function
  of the \<^verbatim>\<open>User-Agent\<close> header; an exception of \<^verbatim>\<open>getUserAgent\<close> leaves the
  constructor.
\<close>

definition constructor ::
  "(string \<Rightarrow> request \<Rightarrow> 'w \<Rightarrow> (error + 'r) \<times> 'w) \<Rightarrow> files \<Rightarrow> string \<Rightarrow> string \<Rightarrow>
     error + ('w, 'r) HttpClient" where
  "constructor got_extend files path url =
     (case getUserAgent files path of
        Inl e \<Rightarrow> Inl e
      | Inr userAgent \<Rightarrow> Inr \<lparr>endpoint = url, client = got_extend userAgent\<rparr>)"

subsection \<open>When \<^verbatim>\<open>createSearchParams\<close> throws\<close>

text \<open>
  The one exception that can leave \<^verbatim>\<open>createSearchParams\<close> is the RangeError of
  \<^verbatim>\<open>toISOString\<close> on an invalid date, the value itself or an element of the array.
\<close>

fun has_invalid_date :: "primitive one_or_array \<Rightarrow> bool" where
  "has_invalid_date (Single x) = (x = PDate (Date None))"
| "has_invalid_date (Array xs) = (PDate (Date None) \<in> set xs)"

subsection \<open>Concrete inputs\<close>

text \<open>
  A client whose library answers every request with the same body and counts the
  requests it served, a state with an empty console and no request sent, a parameter
  object, and two entries of an envelope.
\<close>

definition example_endpoint :: string where
  "example_endpoint = ''https://example.org/api.php''"

definition answering :: "'r \<Rightarrow> (nat, 'r) HttpClient" where
  "answering result =
     \<lparr>endpoint = example_endpoint, client = (\<lambda>req served. (Inr result, Suc served))\<rparr>"

definition quiet :: "nat world" where
  "quiet = \<lparr>console = [], sent = [], net = 0\<rparr>"

definition example_params :: params where
  "example_params =
     [(''action'', Single (PString ''ignoredOnPurpose'')), (''list'', Single (PString ''foo''))]"

definition badvalue :: MediaWikiError where
  "badvalue = \<lparr>code = ''badvalue'', text_field = ''Unrecognized value'', module = ''main''\<rparr>"

definition deprecated :: MediaWikiError where
  "deprecated = \<lparr>code = ''deprecation'', text_field = ''Old parameter'', module = ''query''\<rparr>"

section \<open>Properties\<close>

subsection \<open>Search parameters\<close>

lemma search_getAll_set_same: "search_getAll (search_set k v s) k = [v]"
  by (induction s) (auto simp: search_getAll_def filter_empty_conv)

lemma search_getAll_set_other:
  "k' \<noteq> k \<Longrightarrow> search_getAll (search_set k v s) k' = search_getAll s k'"
proof (induction s)
  case Nil
  then show ?case by (simp add: search_getAll_def)
next
  case (Cons p ps)
  have "filter (\<lambda>q. fst q = k') (filter (\<lambda>q. fst q \<noteq> k) ps) = filter (\<lambda>q. fst q = k') ps"
    using Cons.prems by (induction ps) auto
  with Cons show ?case by (auto simp: search_getAll_def)
qed

lemma search_has_getAll: "search_has s k \<longleftrightarrow> search_getAll s k \<noteq> []"
  by (induction s) (auto simp: search_has_def search_getAll_def)

lemma search_get_getAll: "search_get s k = (case search_getAll s k of [] \<Rightarrow> None | v # vs \<Rightarrow> Some v)"
  by (induction s) (auto simp: search_get_def search_getAll_def)

lemma keys_search_set: "set (map fst (search_set k v s)) = insert k (set (map fst s))"
  by (induction s) auto

lemma distinct_search_set:
  "distinct (map fst s) \<Longrightarrow> distinct (map fst (search_set k v s))"
proof (induction s)
  case Nil
  then show ?case by simp
next
  case (Cons p ps)
  have "distinct (map fst (filter (\<lambda>q. fst q \<noteq> k) ps))"
    using Cons.prems by (simp add: distinct_map_filter)
  moreover have "set (map fst (search_set k v ps)) = insert k (set (map fst ps))"
    by (rule keys_search_set)
  ultimately show ?case using Cons by auto
qed

lemma params_loop_distinct:
  "distinct (map fst s0) \<Longrightarrow> params_loop ps s0 = Inr s \<Longrightarrow> distinct (map fst s)"
proof (induction ps arbitrary: s0)
  case Nil
  then show ?case by simp
next
  case (Cons p ps)
  obtain key v where p: "p = (key, v)" by (cases p)
  show ?case
  proof (cases "skipped v")
    case True
    with Cons p show ?thesis by simp
  next
    case False
    with Cons.prems p obtain c where c: "convert_value v = Inr c"
      and run: "params_loop ps (search_set key (toValues c) s0) = Inr s"
      by (auto split: sum.splits)
    from Cons.prems(1) have "distinct (map fst (search_set key (toValues c) s0))"
      by (rule distinct_search_set)
    then show ?thesis using run by (rule Cons.IH)
  qed
qed

lemma params_loop_absent:
  "k \<notin> set (map fst ps) \<Longrightarrow> params_loop ps s0 = Inr s \<Longrightarrow>
     search_getAll s k = search_getAll s0 k"
proof (induction ps arbitrary: s0)
  case Nil
  then show ?case by simp
next
  case (Cons p ps)
  obtain key v where p: "p = (key, v)" by (cases p)
  with Cons.prems have ne: "k \<noteq> key" and rest: "k \<notin> set (map fst ps)" by auto
  show ?case
  proof (cases "skipped v")
    case True
    with Cons p rest show ?thesis by simp
  next
    case False
    with Cons.prems p obtain c where c: "convert_value v = Inr c"
      and run: "params_loop ps (search_set key (toValues c) s0) = Inr s"
      by (auto split: sum.splits)
    from Cons.IH [OF rest run] ne show ?thesis
      by (simp add: search_getAll_set_other)
  qed
qed

lemma params_loop_entry:
  "distinct (map fst ps) \<Longrightarrow> (k, v) \<in> set ps \<Longrightarrow> params_loop ps s0 = Inr s \<Longrightarrow>
     (if skipped v then search_getAll s k = search_getAll s0 k
      else \<exists>c. convert_value v = Inr c \<and> search_getAll s k = [toValues c])"
proof (induction ps arbitrary: s0)
  case Nil
  then show ?case by simp
next
  case (Cons p ps)
  obtain key w where p: "p = (key, w)" by (cases p)
  from Cons.prems(1) p have fresh: "key \<notin> set (map fst ps)" and dist: "distinct (map fst ps)"
    by auto
  show ?case
  proof (cases "(k, v) = (key, w)")
    case here: True
    show ?thesis
    proof (cases "skipped w")
      case True
      with Cons.prems p have "params_loop ps s0 = Inr s" by simp
      with fresh have "search_getAll s key = search_getAll s0 key"
        by (rule params_loop_absent)
      with True here show ?thesis by simp
    next
      case False
      with Cons.prems p obtain c where c: "convert_value w = Inr c"
        and run: "params_loop ps (search_set key (toValues c) s0) = Inr s"
        by (auto split: sum.splits)
      from params_loop_absent [OF fresh run]
      have "search_getAll s key = [toValues c]"
        by (simp add: search_getAll_set_same)
      with False here c show ?thesis by simp
    qed
  next
    case there: False
    with Cons.prems(2) p have mem: "(k, v) \<in> set ps" by auto
    with fresh have ne: "k \<noteq> key" by force
    show ?thesis
    proof (cases "skipped w")
      case True
      with Cons.prems p have "params_loop ps s0 = Inr s" by simp
      from Cons.IH [OF dist mem this] show ?thesis .
    next
      case False
      with Cons.prems p obtain c where c: "convert_value w = Inr c"
        and run: "params_loop ps (search_set key (toValues c) s0) = Inr s"
        by (auto split: sum.splits)
      from Cons.IH [OF dist mem run] ne show ?thesis
        by (simp add: search_getAll_set_other)
    qed
  qed
qed

subsection \<open>When the serialisation returns\<close>

lemma convert_returns: "(\<exists>s. convert x = Inr s) \<longleftrightarrow> x \<noteq> PDate (Date None)"
proof (cases x)
  case (PDate d)
  then show ?thesis by (cases d) (auto split: option.splits)
qed simp_all

lemma convert_throws: "convert x = Inl e \<Longrightarrow> e = RangeError ''Invalid time value''"
  by (cases x) (auto split: option.splits)

lemma map_convert_returns:
  "(\<exists>ss. map_convert xs = Inr ss) \<longleftrightarrow> PDate (Date None) \<notin> set xs"
proof (induction xs)
  case Nil
  then show ?case by simp
next
  case (Cons x xs)
  show ?case
  proof (cases "convert x")
    case (Inl e)
    then have "x = PDate (Date None)" using convert_returns [of x] by auto
    with Inl show ?thesis by simp
  next
    case (Inr s)
    then have "x \<noteq> PDate (Date None)" using convert_returns [of x] by auto
    with Inr Cons show ?thesis by (auto split: sum.splits)
  qed
qed

lemma convert_value_returns: "(\<exists>c. convert_value v = Inr c) \<longleftrightarrow> \<not> has_invalid_date v"
proof (cases v)
  case (Single x)
  then show ?thesis using convert_returns [of x] by (auto split: sum.splits)
next
  case (Array xs)
  then show ?thesis using map_convert_returns [of xs] by (auto split: sum.splits)
qed

lemma skipped_valid: "skipped v \<Longrightarrow> \<not> has_invalid_date v"
  by (induction v rule: skipped.induct) simp_all

lemma params_loop_returns:
  "(\<exists>s. params_loop ps s0 = Inr s) \<longleftrightarrow> (\<forall>(k, v) \<in> set ps. \<not> has_invalid_date v)"
proof (induction ps arbitrary: s0)
  case Nil
  then show ?case by simp
next
  case (Cons p ps)
  obtain key v where p: "p = (key, v)" by (cases p)
  show ?case
  proof (cases "skipped v")
    case True
    with Cons p skipped_valid [OF True] show ?thesis by simp
  next
    case False
    show ?thesis
    proof (cases "convert_value v")
      case (Inl e)
      then have "has_invalid_date v" using convert_value_returns [of v] by auto
      with Inl False p show ?thesis by simp
    next
      case (Inr c)
      then have "\<not> has_invalid_date v" using convert_value_returns [of v] by auto
      with Inr False p Cons [of "search_set key (toValues c) s0"] show ?thesis by simp
    qed
  qed
qed

lemma createSearchParams_returns:
  "(\<exists>search. createSearchParams params = Inr search) \<longleftrightarrow>
     (\<forall>(k, v) \<in> set params. \<not> has_invalid_date v)"
  using params_loop_returns [of params "[]"]
  by (auto simp: createSearchParams_def split: sum.splits)

lemma createSearchParams_entry:
  assumes "createSearchParams params = Inr search"
    and "distinct (map fst params)" and "(k, v) \<in> set params"
    and "k \<noteq> ''format''" and "k \<noteq> ''formatversion''" and "k \<noteq> ''errorformat''"
  shows "if skipped v then search_getAll search k = []
         else \<exists>c. convert_value v = Inr c \<and> search_getAll search k = [toValues c]"
proof -
  from assms(1) obtain s where run: "params_loop params [] = Inr s"
    and out: "search = search_set ''errorformat'' ''plaintext''
                (search_set ''formatversion'' ''2'' (search_set ''format'' ''json'' s))"
    by (auto simp: createSearchParams_def split: sum.splits)
  from out assms(4-6) have same: "search_getAll search k = search_getAll s k"
    by (simp add: search_getAll_set_other)
  have "search_getAll [] k = []" by (simp add: search_getAll_def)
  with params_loop_entry [OF assms(2) assms(3) run] same show ?thesis
    by (simp split: if_splits)
qed

lemma createSearchParams_absent:
  assumes "createSearchParams params = Inr search"
    and "k \<notin> set (map fst params)"
    and "k \<noteq> ''format''" and "k \<noteq> ''formatversion''" and "k \<noteq> ''errorformat''"
  shows "search_getAll search k = []"
proof -
  from assms(1) obtain s where run: "params_loop params [] = Inr s"
    and out: "search = search_set ''errorformat'' ''plaintext''
                (search_set ''formatversion'' ''2'' (search_set ''format'' ''json'' s))"
    by (auto simp: createSearchParams_def split: sum.splits)
  from out assms(3-5) have same: "search_getAll search k = search_getAll s k"
    by (simp add: search_getAll_set_other)
  have "search_getAll [] k = []" by (simp add: search_getAll_def)
  with params_loop_absent [OF assms(2) run] same show ?thesis
    by simp
qed

lemma map_convert_nth:
  "map_convert xs = Inr ss \<Longrightarrow>
     length ss = length xs \<and> (\<forall>i < length xs. convert (xs ! i) = Inr (ss ! i))"
proof (induction xs arbitrary: ss)
  case Nil
  then show ?case by simp
next
  case (Cons x xs)
  from Cons.prems obtain s rest where s: "convert x = Inr s"
    and rest: "map_convert xs = Inr rest" and ss: "ss = s # rest"
    by (auto split: sum.splits)
  from Cons.IH [OF rest] have len: "length rest = length xs"
    and nth: "\<forall>i < length xs. convert (xs ! i) = Inr (rest ! i)" by simp_all
  show ?case
  proof (intro conjI allI impI)
    show "length ss = length (x # xs)" using len ss by simp
  next
    fix i assume "i < length (x # xs)"
    then show "convert ((x # xs) ! i) = Inr (ss ! i)"
      using s nth ss by (cases i) simp_all
  qed
qed

subsection \<open>Claims about the serialisation\<close>

text \<open>
  Claim C2. Whatever the caller's parameter object holds, also under the keys
  \<^verbatim>\<open>format\<close>, \<^verbatim>\<open>formatversion\<close> and \<^verbatim>\<open>errorformat\<close> themselves, the search
  parameters that \<^verbatim>\<open>createSearchParams\<close> returns hold each of the three names exactly
  once, with the values \<^verbatim>\<open>json\<close>, \<^verbatim>\<open>2\<close> and \<^verbatim>\<open>plaintext\<close>. By
  \<open>createSearchParams_returns\<close> the function returns for every object that holds no
  invalid date.
\<close>

theorem createSearchParams_reserved_keys:
  assumes "createSearchParams params = Inr search"
  shows "search_getAll search ''format'' = [''json'']
       \<and> search_getAll search ''formatversion'' = [''2'']
       \<and> search_getAll search ''errorformat'' = [''plaintext'']"
proof -
  from assms obtain s where
    out: "search = search_set ''errorformat'' ''plaintext''
            (search_set ''formatversion'' ''2'' (search_set ''format'' ''json'' s))"
    by (auto simp: createSearchParams_def split: sum.splits)
  show ?thesis
    unfolding out by (simp add: search_getAll_set_same search_getAll_set_other)
qed

theorem createSearchParams_reserved_keys_witness:
  "createSearchParams [(''action'', Single (PString ''query'')), (''format'', Single (PString ''xml'')),
      (''formatversion'', Single (PNumber (Number ''1''))), (''errorformat'', Array [PString ''html''])]
     = Inr [(''action'', ''query''), (''format'', ''json''), (''formatversion'', ''2''), (''errorformat'', ''plaintext'')]
   \<and> search_getAll [(''action'', ''query''), (''format'', ''json''), (''formatversion'', ''2''), (''errorformat'', ''plaintext'')] ''format'' = [''json'']
   \<and> search_getAll [(''action'', ''query''), (''format'', ''json''), (''formatversion'', ''2''), (''errorformat'', ''plaintext'')] ''formatversion'' = [''2'']
   \<and> search_getAll [(''action'', ''query''), (''format'', ''json''), (''formatversion'', ''2''), (''errorformat'', ''plaintext'')] ''errorformat'' = [''plaintext'']"
proof -
  have run: "createSearchParams [(''action'', Single (PString ''query'')), (''format'', Single (PString ''xml'')),
      (''formatversion'', Single (PNumber (Number ''1''))), (''errorformat'', Array [PString ''html''])]
     = Inr [(''action'', ''query''), (''format'', ''json''), (''formatversion'', ''2''), (''errorformat'', ''plaintext'')]"
    by (simp add: createSearchParams_def includes_pipe_def)
  from createSearchParams_reserved_keys [OF run] run show ?thesis by simp
qed



text \<open>
  Claim C4, amended. As stated the claim fails for the three names that
  \<^verbatim>\<open>createSearchParams\<close> sets itself: they are in the output whatever the caller gave,
  also nothing, \<^verbatim>\<open>null\<close>, \<^verbatim>\<open>false\<close> or \<^verbatim>\<open>true\<close> (the counterexample). For every
  other key of a parameter object, in the search parameters that \<^verbatim>\<open>createSearchParams\<close>
  returns: a key that the object does not have, or has with the value \<^verbatim>\<open>null\<close>,
  \<^verbatim>\<open>undefined\<close> or \<^verbatim>\<open>false\<close>, does not occur; a key with the value \<^verbatim>\<open>true\<close>
  occurs once, with the empty string.
\<close>

theorem omitted_and_flag_keys:
  assumes "createSearchParams params = Inr search"
    and "distinct (map fst params)"
    and "k \<notin> {''format'', ''formatversion'', ''errorformat''}"
  shows "(k \<notin> set (map fst params) \<or> (k, Single PNull) \<in> set params
            \<or> (k, Single PUndefined) \<in> set params
            \<or> (k, Single (PBoolean False)) \<in> set params
          \<longrightarrow> \<not> search_has search k)
       \<and> ((k, Single (PBoolean True)) \<in> set params \<longrightarrow> search_getAll search k = [[]])"
proof -
  from assms(3) have k: "k \<noteq> ''format''" "k \<noteq> ''formatversion''" "k \<noteq> ''errorformat''"
    by simp_all
  have absent: "search_getAll search k = []" if "k \<notin> set (map fst params)"
    using createSearchParams_absent [OF assms(1) that k] .
  have skip: "search_getAll search k = []" if "(k, v) \<in> set params" "skipped v" for v
    using createSearchParams_entry [OF assms(1) assms(2) that(1) k] that(2) by simp
  have flag: "search_getAll search k = [[]]" if "(k, Single (PBoolean True)) \<in> set params"
    using createSearchParams_entry [OF assms(1) assms(2) that k]
    by (auto simp: includes_pipe_def)
  from absent skip [of "Single PNull"] skip [of "Single PUndefined"]
    skip [of "Single (PBoolean False)"] flag
  show ?thesis by (auto simp: search_has_getAll)
qed

theorem omitted_and_flag_keys_witness:
  "createSearchParams
     [(''action'', Single (PString ''query'')), (''a'', Single PNull), (''b'', Single PUndefined),
      (''c'', Single (PBoolean False)), (''d'', Single (PBoolean True))]
   = Inr [(''action'', ''query''), (''d'', []), (''format'', ''json''),
          (''formatversion'', ''2''), (''errorformat'', ''plaintext'')]
 \<and> \<not> search_has [(''action'', ''query''), (''d'', []), (''format'', ''json''),
          (''formatversion'', ''2''), (''errorformat'', ''plaintext'')] ''c''
 \<and> search_getAll [(''action'', ''query''), (''d'', []), (''format'', ''json''),
          (''formatversion'', ''2''), (''errorformat'', ''plaintext'')] ''d'' = [[]]"
proof -
  let ?params = "[(''action'', Single (PString ''query'')), (''a'', Single PNull),
      (''b'', Single PUndefined), (''c'', Single (PBoolean False)), (''d'', Single (PBoolean True))]"
  let ?search = "[(''action'', ''query''), (''d'', []), (''format'', ''json''),
          (''formatversion'', ''2''), (''errorformat'', ''plaintext'')]"
  have run: "createSearchParams ?params = Inr ?search"
    by (simp add: createSearchParams_def includes_pipe_def)
  have keys: "distinct (map fst ?params)" by simp
  have c: "''c'' \<notin> {''format'', ''formatversion'', ''errorformat''}" by simp
  have d: "''d'' \<notin> {''format'', ''formatversion'', ''errorformat''}" by simp
  from omitted_and_flag_keys [OF run keys c] have "\<not> search_has ?search ''c''" by simp
  moreover from omitted_and_flag_keys [OF run keys d] have "search_getAll ?search ''d'' = [[]]"
    by simp
  ultimately show ?thesis using run by simp
qed

text \<open>
  The parameter object \<^verbatim>\<open>{ format: false, errorformat: true }\<close>: the key \<^verbatim>\<open>format\<close>,
  whose value is \<^verbatim>\<open>false\<close>, is in the output; so is the key \<^verbatim>\<open>formatversion\<close>,
  which the object does not have; and the key \<^verbatim>\<open>errorformat\<close>, whose value is
  \<^verbatim>\<open>true\<close>, has the value \<^verbatim>\<open>plaintext\<close>, not the empty string.
\<close>

theorem reserved_key_counterexample:
  "createSearchParams [(''format'', Single (PBoolean False)), (''errorformat'', Single (PBoolean True))]
     = Inr [(''errorformat'', ''plaintext''), (''format'', ''json''), (''formatversion'', ''2'')]
 \<and> search_has [(''errorformat'', ''plaintext''), (''format'', ''json''), (''formatversion'', ''2'')] ''format''
 \<and> ''formatversion'' \<notin> set (map fst [(''format'', Single (PBoolean False)), (''errorformat'', Single (PBoolean True))])
 \<and> search_has [(''errorformat'', ''plaintext''), (''format'', ''json''), (''formatversion'', ''2'')] ''formatversion''
 \<and> search_get [(''errorformat'', ''plaintext''), (''format'', ''json''), (''formatversion'', ''2'')] ''errorformat''
      = Some ''plaintext''
 \<and> ''plaintext'' \<noteq> []"
  by (simp add: createSearchParams_def includes_pipe_def search_has_def search_get_def)

text \<open>
  Claim C9, amended. As stated the claim fails for an array under one of the three names
  that \<^verbatim>\<open>createSearchParams\<close> sets itself after the loop: the joined value is
  overwritten (the counterexample). For an array under any other key, in the search
  parameters that \<^verbatim>\<open>createSearchParams\<close> returns: the array is converted element by
  element into as many strings, \<^verbatim>\<open>null\<close> into the string \<^verbatim>\<open>null\<close> and
  \<^verbatim>\<open>undefined\<close> into the string \<^verbatim>\<open>undefined\<close>, and the key has one value, those
  strings joined by \<^verbatim>\<open>|\<close>, or, when one of them contains \<^verbatim>\<open>|\<close>, the unit separator
  followed by the strings joined by the unit separator; whereas a key whose value itself
  is \<^verbatim>\<open>null\<close> or \<^verbatim>\<open>undefined\<close> does not occur.
\<close>

theorem array_null_elements_kept:
  assumes "createSearchParams params = Inr search"
    and "distinct (map fst params)"
    and "(k, Array xs) \<in> set params"
    and "k \<notin> {''format'', ''formatversion'', ''errorformat''}"
  shows "(\<exists>strings. map_convert xs = Inr strings \<and> length strings = length xs
           \<and> (\<forall>i < length xs. (xs ! i = PNull \<longrightarrow> strings ! i = ''null'')
                             \<and> (xs ! i = PUndefined \<longrightarrow> strings ! i = ''undefined''))
           \<and> search_getAll search k =
                [if \<exists>s \<in> set strings. CHR ''|'' \<in> set s
                 then CHR 0x1F # join [CHR 0x1F] strings
                 else join ''|'' strings])
       \<and> (\<forall>k'. k' \<notin> {''format'', ''formatversion'', ''errorformat''}
                \<and> ((k', Single PNull) \<in> set params \<or> (k', Single PUndefined) \<in> set params)
              \<longrightarrow> \<not> search_has search k')"
proof -
  from assms(4) have k: "k \<noteq> ''format''" "k \<noteq> ''formatversion''" "k \<noteq> ''errorformat''"
    by simp_all
  from createSearchParams_entry [OF assms(1) assms(2) assms(3) k]
  obtain strings where conv: "map_convert xs = Inr strings"
    and out: "search_getAll search k = [toValues (Array strings)]"
    by (auto split: sum.splits)
  have joined: "toValues (Array strings) =
      (if \<exists>s \<in> set strings. CHR ''|'' \<in> set s
       then CHR 0x1F # join [CHR 0x1F] strings else join ''|'' strings)"
    by (simp add: includes_pipe_def US_def list_ex_iff)
  from map_convert_nth [OF conv] have len: "length strings = length xs"
    and nth: "\<forall>i < length xs. convert (xs ! i) = Inr (strings ! i)" by simp_all
  have "(xs ! i = PNull \<longrightarrow> strings ! i = ''null'')
      \<and> (xs ! i = PUndefined \<longrightarrow> strings ! i = ''undefined'')" if "i < length xs" for i
    using nth that by (metis convert.simps(5) convert.simps(6) sum.inject(2))
  with conv len out joined have array: "\<exists>strings. map_convert xs = Inr strings
      \<and> length strings = length xs
      \<and> (\<forall>i < length xs. (xs ! i = PNull \<longrightarrow> strings ! i = ''null'')
                        \<and> (xs ! i = PUndefined \<longrightarrow> strings ! i = ''undefined''))
      \<and> search_getAll search k =
           [if \<exists>s \<in> set strings. CHR ''|'' \<in> set s
            then CHR 0x1F # join [CHR 0x1F] strings
            else join ''|'' strings]"
    by auto
  have top: "\<not> search_has search k'"
    if "k' \<notin> {''format'', ''formatversion'', ''errorformat''}"
      and "(k', Single PNull) \<in> set params \<or> (k', Single PUndefined) \<in> set params" for k'
  proof -
    from that(1) have k': "k' \<noteq> ''format''" "k' \<noteq> ''formatversion''" "k' \<noteq> ''errorformat''"
      by simp_all
    from that(2) obtain v where "(k', v) \<in> set params" "skipped v" by auto
    with createSearchParams_entry [OF assms(1) assms(2) _ k', of v]
    show ?thesis by (simp add: search_has_getAll)
  qed
  from array top show ?thesis by blast
qed

theorem array_null_elements_kept_witness:
  "createSearchParams
     [(''ids'', Array [PNumber (Number ''7''), PNull, PUndefined]),
      (''titles'', Array [PString ''a|b'', PNull]), (''title'', Single PNull)]
   = Inr [(''ids'', ''7|null|undefined''),
          (''titles'', CHR 0x1F # ''a|b'' @ CHR 0x1F # ''null''),
          (''format'', ''json''), (''formatversion'', ''2''), (''errorformat'', ''plaintext'')]
 \<and> search_getAll [(''ids'', ''7|null|undefined''),
          (''titles'', CHR 0x1F # ''a|b'' @ CHR 0x1F # ''null''),
          (''format'', ''json''), (''formatversion'', ''2''), (''errorformat'', ''plaintext'')] ''ids''
      = [''7|null|undefined'']
 \<and> search_getAll [(''ids'', ''7|null|undefined''),
          (''titles'', CHR 0x1F # ''a|b'' @ CHR 0x1F # ''null''),
          (''format'', ''json''), (''formatversion'', ''2''), (''errorformat'', ''plaintext'')] ''titles''
      = [CHR 0x1F # ''a|b'' @ CHR 0x1F # ''null'']
 \<and> \<not> search_has [(''ids'', ''7|null|undefined''),
          (''titles'', CHR 0x1F # ''a|b'' @ CHR 0x1F # ''null''),
          (''format'', ''json''), (''formatversion'', ''2''), (''errorformat'', ''plaintext'')] ''title''"
proof -
  let ?params = "[(''ids'', Array [PNumber (Number ''7''), PNull, PUndefined]),
      (''titles'', Array [PString ''a|b'', PNull]), (''title'', Single PNull)]"
  let ?search = "[(''ids'', ''7|null|undefined''),
          (''titles'', CHR 0x1F # ''a|b'' @ CHR 0x1F # ''null''),
          (''format'', ''json''), (''formatversion'', ''2''), (''errorformat'', ''plaintext'')]"
  have run: "createSearchParams ?params = Inr ?search"
    by (simp add: createSearchParams_def includes_pipe_def US_def)
  have keys: "distinct (map fst ?params)" by simp
  have ids: "(''ids'', Array [PNumber (Number ''7''), PNull, PUndefined]) \<in> set ?params" by simp
  have titles: "(''titles'', Array [PString ''a|b'', PNull]) \<in> set ?params" by simp
  have free: "''ids'' \<notin> {''format'', ''formatversion'', ''errorformat''}"
    "''titles'' \<notin> {''format'', ''formatversion'', ''errorformat''}" by simp_all
  note kept = array_null_elements_kept [OF run keys ids free(1)]
  note kept' = array_null_elements_kept [OF run keys titles free(2)]
  from kept obtain strings
    where "map_convert [PNumber (Number ''7''), PNull, PUndefined] = Inr strings"
      and "search_getAll ?search ''ids'' =
             [if \<exists>s \<in> set strings. CHR ''|'' \<in> set s
              then CHR 0x1F # join [CHR 0x1F] strings else join ''|'' strings]"
    by blast
  then have a: "search_getAll ?search ''ids'' = [''7|null|undefined'']"
    by auto
  from kept' obtain strings'
    where "map_convert [PString ''a|b'', PNull] = Inr strings'"
      and "search_getAll ?search ''titles'' =
             [if \<exists>s \<in> set strings'. CHR ''|'' \<in> set s
              then CHR 0x1F # join [CHR 0x1F] strings' else join ''|'' strings']"
    by blast
  then have b: "search_getAll ?search ''titles'' = [CHR 0x1F # ''a|b'' @ CHR 0x1F # ''null'']"
    by auto
  from kept have c: "\<not> search_has ?search ''title''" by simp
  from run a b c show ?thesis by blast
qed

text \<open>
  The parameter object \<^verbatim>\<open>{ format: [null, 'x'] }\<close>: the loop sets \<^verbatim>\<open>format\<close> to
  \<^verbatim>\<open>null|x\<close>, and the output has \<^verbatim>\<open>format=json\<close>; the element is not in it.
\<close>

theorem overwritten_array_counterexample:
  "createSearchParams [(''format'', Array [PNull, PString ''x''])]
     = Inr [(''format'', ''json''), (''formatversion'', ''2''), (''errorformat'', ''plaintext'')]
 \<and> search_getAll [(''format'', ''json''), (''formatversion'', ''2''),
        (''errorformat'', ''plaintext'')] ''format'' = [''json'']
 \<and> ''json'' \<noteq> ''null|x''"
  by (simp add: createSearchParams_def includes_pipe_def search_getAll_def)

subsection \<open>Requests and the response envelope\<close>

lemma warn_loop: "foldl (\<lambda>out w. out @ [f w]) acc ws = acc @ map f ws"
  by (induction ws arbitrary: acc) simp_all

lemma checkWarnings_Some:
  "checkWarnings (Some ws) out = out @ map (\<lambda>w. Warn (Yellow (format_entry w))) ws"
  by (simp add: checkWarnings_def warn_loop)

lemma get_throws_before_request:
  "createSearchParams params = Inl e \<Longrightarrow> get this params st = (Inl e, st)"
  by (simp add: get_def)

lemma post_throws_before_request:
  "createSearchParams params = Inl e \<Longrightarrow> post this params st = (Inl e, st)"
  by (simp add: post_def)

lemma get_sent:
  "createSearchParams params = Inr search \<Longrightarrow>
     sent (snd (get this params st)) = sent st @ [Request GET (endpoint this) (SearchParams search)]"
  by (simp add: get_def send_def Let_def split: prod.splits sum.splits)

lemma post_sent:
  "createSearchParams params = Inr search \<Longrightarrow>
     sent (snd (post this params st)) =
       sent st @ [Request POST (endpoint this) (Form (fromEntries search))]"
  by (simp add: post_def send_def Let_def split: prod.splits sum.splits)

lemma get_response:
  assumes "createSearchParams params = Inr search"
    and "client this (Request GET (endpoint this) (SearchParams search)) (net st) = (Inr result, n)"
  shows "fst (get this params st) =
           (case errors result of None \<Rightarrow> Inr result | Some found \<Rightarrow> Inl (Error (message found)))"
    and "console (snd (get this params st)) = checkWarnings (warnings result) (console st)"
  using assms
  by (simp_all add: get_def send_def Let_def checkErrors_def split: option.splits)

lemma post_response:
  assumes "createSearchParams params = Inr search"
    and "client this (Request POST (endpoint this) (Form (fromEntries search))) (net st)
           = (Inr result, n)"
  shows "fst (post this params st) =
           (case errors result of None \<Rightarrow> Inr result | Some found \<Rightarrow> Inl (Error (message found)))"
    and "console (snd (post this params st)) = checkWarnings (warnings result) (console st)"
  using assms
  by (simp_all add: post_def send_def Let_def checkErrors_def split: option.splits)

lemma query_get:
  "query this params st =
     (case get this (object_set ''action'' (Single (PString ''query'')) params) st of
        (Inl e, st1) \<Rightarrow> (Inl e, st1) | (Inr result, st1) \<Rightarrow> (Inr (query_field result), st1))"
  by (simp add: query_def)

lemma query_response:
  assumes "createSearchParams (object_set ''action'' (Single (PString ''query'')) params) = Inr search"
    and "client this (Request GET (endpoint this) (SearchParams search)) (net st) = (Inr result, n)"
  shows "fst (query this params st) =
           (case errors result of None \<Rightarrow> Inr (query_field result)
            | Some found \<Rightarrow> Inl (Error (message found)))"
    and "console (snd (query this params st)) = checkWarnings (warnings result) (console st)"
    and "sent (snd (query this params st)) =
           sent st @ [Request GET (endpoint this) (SearchParams search)]"
proof -
  let ?g = "get this (object_set ''action'' (Single (PString ''query'')) params) st"
  from get_response [OF assms] have f: "fst ?g =
      (case errors result of None \<Rightarrow> Inr result | Some found \<Rightarrow> Inl (Error (message found)))"
    and c: "console (snd ?g) = checkWarnings (warnings result) (console st)" by simp_all
  from get_sent [OF assms(1)] have s: "sent (snd ?g) =
      sent st @ [Request GET (endpoint this) (SearchParams search)]" .
  obtain r st1 where g: "?g = (r, st1)" by (cases ?g)
  show "fst (query this params st) =
           (case errors result of None \<Rightarrow> Inr (query_field result)
            | Some found \<Rightarrow> Inl (Error (message found)))"
    using f g by (cases r) (auto simp: query_def split: option.splits)
  show "console (snd (query this params st)) = checkWarnings (warnings result) (console st)"
    using c g by (cases r) (auto simp: query_def)
  show "sent (snd (query this params st)) =
           sent st @ [Request GET (endpoint this) (SearchParams search)]"
    using s g by (cases r) (auto simp: query_def)
qed

lemma example_search:
  "createSearchParams example_params =
     Inr [(''action'', ''ignoredOnPurpose''), (''list'', ''foo''), (''format'', ''json''),
          (''formatversion'', ''2''), (''errorformat'', ''plaintext'')]"
  by (simp add: example_params_def createSearchParams_def includes_pipe_def)

lemma example_query_search:
  "createSearchParams (object_set ''action'' (Single (PString ''query'')) example_params) =
     Inr [(''action'', ''query''), (''list'', ''foo''), (''format'', ''json''),
          (''formatversion'', ''2''), (''errorformat'', ''plaintext'')]"
  by (simp add: example_params_def createSearchParams_def includes_pipe_def)

lemma answering_client:
  "client (answering result) req (net quiet) = (Inr result, Suc 0)"
  by (simp add: answering_def quiet_def)

subsection \<open>The form object and the spread object\<close>

lemma entries_loop:
  "distinct (map fst es) \<Longrightarrow>
     foldl (\<lambda>obj (name, v). obj(name \<mapsto> v)) m es k =
       (case map_of es k of None \<Rightarrow> m k | Some v \<Rightarrow> Some v)"
proof (induction es arbitrary: m)
  case Nil
  then show ?case by simp
next
  case (Cons p es)
  obtain a b where p: "p = (a, b)" by (cases p)
  from Cons.prems p have fresh: "a \<notin> set (map fst es)" and dist: "distinct (map fst es)"
    by auto
  from fresh have none: "map_of es a = None" by (simp add: map_of_eq_None_iff)
  show ?case using Cons.IH [OF dist, of "m(a \<mapsto> b)"] p none
    by (auto split: option.splits)
qed

lemma fromEntries_distinct:
  "distinct (map fst es) \<Longrightarrow> fromEntries es k = map_of es k"
  by (simp add: fromEntries_def entries_loop split: option.splits)

lemma createSearchParams_distinct:
  assumes "createSearchParams params = Inr search"
  shows "distinct (map fst search)"
proof -
  from assms obtain s where run: "params_loop params [] = Inr s"
    and out: "search = search_set ''errorformat'' ''plaintext''
                (search_set ''formatversion'' ''2'' (search_set ''format'' ''json'' s))"
    by (auto simp: createSearchParams_def split: sum.splits)
  have "distinct (map fst s)" using params_loop_distinct [OF _ run] by simp
  then show ?thesis unfolding out by (intro distinct_search_set)
qed

lemma object_set_keys:
  "map fst (object_set k v ps) =
     (if k \<in> set (map fst ps) then map fst ps else map fst ps @ [k])"
  by (induction ps) auto

lemma distinct_object_set:
  "distinct (map fst ps) \<Longrightarrow> distinct (map fst (object_set k v ps))"
  by (simp add: object_set_keys)

lemma object_set_same: "(k, v) \<in> set (object_set k v ps)"
  by (induction ps) auto

lemma object_set_other:
  "k' \<noteq> k \<Longrightarrow> (k', w) \<in> set (object_set k v ps) \<longleftrightarrow> (k', w) \<in> set ps"
  by (induction ps) auto

lemma object_set_subset: "set (object_set k v ps) \<subseteq> insert (k, v) (set ps)"
  by (induction ps) auto

lemma search_getAll_final:
  "search_getAll (search_set ''errorformat'' ''plaintext''
      (search_set ''formatversion'' ''2'' (search_set ''format'' ''json'' s))) k =
     (if k = ''format'' then [''json'']
      else if k = ''formatversion'' then [''2'']
      else if k = ''errorformat'' then [''plaintext'']
      else search_getAll s k)"
  by (simp add: search_getAll_set_same search_getAll_set_other)

lemma params_loop_object_set:
  assumes dist: "distinct (map fst ps)"
    and run1: "params_loop ps [] = Inr s1"
    and run2: "params_loop (object_set a q ps) [] = Inr s2"
    and ne: "k \<noteq> a"
  shows "search_getAll s2 k = search_getAll s1 k"
proof (cases "k \<in> set (map fst ps)")
  case True
  then obtain v where mem: "(k, v) \<in> set ps" by auto
  with ne have mem2: "(k, v) \<in> set (object_set a q ps)" by (simp add: object_set_other)
  from params_loop_entry [OF dist mem run1]
    params_loop_entry [OF distinct_object_set [OF dist] mem2 run2]
  show ?thesis by (auto split: if_splits)
next
  case False
  with ne have "k \<notin> set (map fst (object_set a q ps))" by (simp add: object_set_keys)
  from params_loop_absent [OF this run2] params_loop_absent [OF False run1]
  show ?thesis by simp
qed

subsection \<open>Claims about the envelope checks\<close>

text \<open>
  Claim C1. When the library has returned a response body whose \<^verbatim>\<open>errors\<close> field is
  present, \<^verbatim>\<open>get\<close>, \<^verbatim>\<open>post\<close> and \<^verbatim>\<open>query\<close> each end with the exception
  \<^verbatim>\<open>Error(message)\<close> and return no value. The message is the entries in their order,
  each written \<^verbatim>\<open>[module] code: text\<close>, joined by line feeds; a single error object
  gives the message of the array that holds just that object.
\<close>

theorem errors_fail:
  "(createSearchParams params = Inr search
      \<and> client this (Request GET (endpoint this) (SearchParams search)) (net st) = (Inr result, n)
      \<and> errors result = Some found
    \<longrightarrow> fst (get this params st) = Inl (Error (message found)))
 \<and> (createSearchParams params = Inr search
      \<and> client this (Request POST (endpoint this) (Form (fromEntries search))) (net st)
          = (Inr result, n)
      \<and> errors result = Some found
    \<longrightarrow> fst (post this params st) = Inl (Error (message found)))
 \<and> (createSearchParams (object_set ''action'' (Single (PString ''query'')) params) = Inr qsearch
      \<and> client qthis (Request GET (endpoint qthis) (SearchParams qsearch)) (net qst)
          = (Inr qresult, qn)
      \<and> errors qresult = Some found
    \<longrightarrow> fst (query qthis params qst) = Inl (Error (message found)))
 \<and> message (ErrorsArray entries) =
      join [CHR 0x0A]
        (map (\<lambda>e. ''['' @ module e @ ''] '' @ code e @ '': '' @ text_field e) entries)
 \<and> message (ErrorsObject entry) = message (ErrorsArray [entry])"
proof (intro conjI impI)
  assume "createSearchParams params = Inr search
      \<and> client this (Request GET (endpoint this) (SearchParams search)) (net st) = (Inr result, n)
      \<and> errors result = Some found"
  then show "fst (get this params st) = Inl (Error (message found))"
    using get_response(1) [of params search this st result n] by simp
next
  assume "createSearchParams params = Inr search
      \<and> client this (Request POST (endpoint this) (Form (fromEntries search))) (net st)
          = (Inr result, n)
      \<and> errors result = Some found"
  then show "fst (post this params st) = Inl (Error (message found))"
    using post_response(1) [of params search this st result n] by simp
next
  assume "createSearchParams (object_set ''action'' (Single (PString ''query'')) params) = Inr qsearch
      \<and> client qthis (Request GET (endpoint qthis) (SearchParams qsearch)) (net qst)
          = (Inr qresult, qn)
      \<and> errors qresult = Some found"
  then show "fst (query qthis params qst) = Inl (Error (message found))"
    using query_response(1) [of params qsearch qthis qst qresult qn] by simp
next
  show "message (ErrorsArray entries) =
      join [CHR 0x0A]
        (map (\<lambda>e. ''['' @ module e @ ''] '' @ code e @ '': '' @ text_field e) entries)"
    by (simp add: message_def line_feed_def format_entry_def [abs_def])
next
  show "message (ErrorsObject entry) = message (ErrorsArray [entry])"
    by (simp add: message_def)
qed

theorem errors_fail_witness:
  "fst (get (answering \<lparr>warnings = None, errors = Some (ErrorsArray [badvalue, deprecated]),
                        docref = None\<rparr>) example_params quiet)
     = Inl (Error (''[main] badvalue: Unrecognized value'' @ [CHR 0x0A]
                    @ ''[query] deprecation: Old parameter''))
 \<and> fst (post (answering \<lparr>warnings = None, errors = Some (ErrorsArray [badvalue, deprecated]),
                        docref = None\<rparr>) example_params quiet)
     = Inl (Error (''[main] badvalue: Unrecognized value'' @ [CHR 0x0A]
                    @ ''[query] deprecation: Old parameter''))
 \<and> fst (query (answering \<lparr>warnings = None, errors = Some (ErrorsObject badvalue),
                        docref = None, batchcomplete = Inl True, query_field = ''pages''\<rparr>)
          example_params quiet)
     = Inl (Error ''[main] badvalue: Unrecognized value'')"
proof -
  let ?body = "\<lparr>warnings = None, errors = Some (ErrorsArray [badvalue, deprecated]),
                        docref = None\<rparr>"
  let ?qbody = "\<lparr>warnings = None, errors = Some (ErrorsObject badvalue),
                        docref = None, batchcomplete = Inl True, query_field = ''pages''\<rparr>"
  note fail = errors_fail [of example_params _ "answering ?body" quiet ?body "Suc 0"
      "ErrorsArray [badvalue, deprecated]" _ "answering ?qbody" quiet ?qbody "Suc 0"
      "[badvalue, deprecated]" badvalue]
  note qfail = errors_fail [of example_params _ "answering ?body" quiet ?body "Suc 0"
      "ErrorsObject badvalue" _ "answering ?qbody" quiet ?qbody "Suc 0" "[badvalue]" badvalue]
  have two: "message (ErrorsArray [badvalue, deprecated]) =
      ''[main] badvalue: Unrecognized value'' @ [CHR 0x0A] @ ''[query] deprecation: Old parameter''"
    using fail by (simp add: badvalue_def deprecated_def)
  have one: "message (ErrorsObject badvalue) = ''[main] badvalue: Unrecognized value''"
    using qfail by (simp add: badvalue_def)
  from fail have "fst (get (answering ?body) example_params quiet)
      = Inl (Error (message (ErrorsArray [badvalue, deprecated])))"
    by (simp add: example_search answering_client)
  moreover from fail have "fst (post (answering ?body) example_params quiet)
      = Inl (Error (message (ErrorsArray [badvalue, deprecated])))"
    by (simp add: example_search answering_client)
  moreover from qfail have "fst (query (answering ?qbody) example_params quiet)
      = Inl (Error (message (ErrorsObject badvalue)))"
    by (simp add: example_query_search answering_client)
  ultimately show ?thesis using two one by simp
qed

text \<open>
  Claim C5. When the library has returned a response body with \<^verbatim>\<open>warnings\<close> and
  without \<^verbatim>\<open>errors\<close>, \<^verbatim>\<open>get\<close> and \<^verbatim>\<open>post\<close> add to the console one yellow
  \<^verbatim>\<open>console.warn\<close> line per warning, \<^verbatim>\<open>[module] code: text\<close>, in the order of the
  entries, and return the body as it was received.
\<close>

theorem warnings_logged_then_body:
  "(createSearchParams params = Inr search
      \<and> client this (Request GET (endpoint this) (SearchParams search)) (net st) = (Inr result, n)
      \<and> warnings result = Some ws \<and> errors result = None
    \<longrightarrow> fst (get this params st) = Inr result
      \<and> console (snd (get this params st)) =
          console st @ map (\<lambda>w. Warn (Yellow (''['' @ module w @ ''] '' @ code w @ '': ''
                                                @ text_field w))) ws)
 \<and> (createSearchParams params = Inr search
      \<and> client this (Request POST (endpoint this) (Form (fromEntries search))) (net st)
          = (Inr result, n)
      \<and> warnings result = Some ws \<and> errors result = None
    \<longrightarrow> fst (post this params st) = Inr result
      \<and> console (snd (post this params st)) =
          console st @ map (\<lambda>w. Warn (Yellow (''['' @ module w @ ''] '' @ code w @ '': ''
                                                @ text_field w))) ws)"
proof (intro conjI impI)
  assume a: "createSearchParams params = Inr search
      \<and> client this (Request GET (endpoint this) (SearchParams search)) (net st) = (Inr result, n)
      \<and> warnings result = Some ws \<and> errors result = None"
  then show "fst (get this params st) = Inr result"
    using get_response(1) [of params search this st result n] by simp
  from a show "console (snd (get this params st)) =
          console st @ map (\<lambda>w. Warn (Yellow (''['' @ module w @ ''] '' @ code w @ '': ''
                                                @ text_field w))) ws"
    using get_response(2) [of params search this st result n]
    by (simp add: checkWarnings_Some format_entry_def)
next
  assume a: "createSearchParams params = Inr search
      \<and> client this (Request POST (endpoint this) (Form (fromEntries search))) (net st)
          = (Inr result, n)
      \<and> warnings result = Some ws \<and> errors result = None"
  then show "fst (post this params st) = Inr result"
    using post_response(1) [of params search this st result n] by simp
  from a show "console (snd (post this params st)) =
          console st @ map (\<lambda>w. Warn (Yellow (''['' @ module w @ ''] '' @ code w @ '': ''
                                                @ text_field w))) ws"
    using post_response(2) [of params search this st result n]
    by (simp add: checkWarnings_Some format_entry_def)
qed

theorem warnings_logged_then_body_witness:
  "fst (get (answering \<lparr>warnings = Some [deprecated, badvalue], errors = None,
                        docref = Some ''See the documentation''\<rparr>) example_params quiet)
     = Inr \<lparr>warnings = Some [deprecated, badvalue], errors = None,
            docref = Some ''See the documentation''\<rparr>
 \<and> console (snd (get (answering \<lparr>warnings = Some [deprecated, badvalue], errors = None,
                        docref = Some ''See the documentation''\<rparr>) example_params quiet))
     = [Warn (Yellow ''[query] deprecation: Old parameter''),
        Warn (Yellow ''[main] badvalue: Unrecognized value'')]
 \<and> fst (post (answering \<lparr>warnings = Some [deprecated, badvalue], errors = None,
                        docref = Some ''See the documentation''\<rparr>) example_params quiet)
     = Inr \<lparr>warnings = Some [deprecated, badvalue], errors = None,
            docref = Some ''See the documentation''\<rparr>
 \<and> console (snd (post (answering \<lparr>warnings = Some [deprecated, badvalue], errors = None,
                        docref = Some ''See the documentation''\<rparr>) example_params quiet))
     = [Warn (Yellow ''[query] deprecation: Old parameter''),
        Warn (Yellow ''[main] badvalue: Unrecognized value'')]"
proof -
  let ?body = "\<lparr>warnings = Some [deprecated, badvalue], errors = None,
                 docref = Some ''See the documentation''\<rparr>"
  note logged = warnings_logged_then_body [of example_params _ "answering ?body" quiet ?body
      "Suc 0" "[deprecated, badvalue]"]
  have lines: "console quiet @ map (\<lambda>w. Warn (Yellow (''['' @ module w @ ''] '' @ code w @ '': ''
                                                @ text_field w))) [deprecated, badvalue]
      = [Warn (Yellow ''[query] deprecation: Old parameter''),
         Warn (Yellow ''[main] badvalue: Unrecognized value'')]"
    by (simp add: quiet_def deprecated_def badvalue_def)
  from logged have "fst (get (answering ?body) example_params quiet) = Inr ?body
      \<and> console (snd (get (answering ?body) example_params quiet)) =
          console quiet @ map (\<lambda>w. Warn (Yellow (''['' @ module w @ ''] '' @ code w @ '': ''
                                                @ text_field w))) [deprecated, badvalue]"
    by (simp add: example_search answering_client)
  moreover from logged have "fst (post (answering ?body) example_params quiet) = Inr ?body
      \<and> console (snd (post (answering ?body) example_params quiet)) =
          console quiet @ map (\<lambda>w. Warn (Yellow (''['' @ module w @ ''] '' @ code w @ '': ''
                                                @ text_field w))) [deprecated, badvalue]"
    by (simp add: example_search answering_client)
  ultimately show ?thesis unfolding lines by simp
qed

text \<open>
  Claim C10. When the body has both \<^verbatim>\<open>warnings\<close> and \<^verbatim>\<open>errors\<close>, \<^verbatim>\<open>get\<close> and
  \<^verbatim>\<open>post\<close> end with the exception whose message is the error entries, each written
  \<^verbatim>\<open>[module] code: text\<close>, joined by line feeds (a single error object counting as
  the array that holds it), and the console they leave behind holds every warning line,
  in order: all of them were written before the throw.
\<close>

theorem warnings_before_errors:
  "(createSearchParams params = Inr search
      \<and> client this (Request GET (endpoint this) (SearchParams search)) (net st) = (Inr result, n)
      \<and> warnings result = Some ws
      \<and> (errors result = Some (ErrorsArray entries)
          \<or> errors result = Some (ErrorsObject entry) \<and> entries = [entry])
    \<longrightarrow> fst (get this params st) =
          Inl (Error (join [CHR 0x0A]
            (map (\<lambda>e. ''['' @ module e @ ''] '' @ code e @ '': '' @ text_field e) entries)))
      \<and> console (snd (get this params st)) =
          console st @ map (\<lambda>w. Warn (Yellow (''['' @ module w @ ''] '' @ code w @ '': ''
                                                @ text_field w))) ws)
 \<and> (createSearchParams params = Inr search
      \<and> client this (Request POST (endpoint this) (Form (fromEntries search))) (net st)
          = (Inr result, n)
      \<and> warnings result = Some ws
      \<and> (errors result = Some (ErrorsArray entries)
          \<or> errors result = Some (ErrorsObject entry) \<and> entries = [entry])
    \<longrightarrow> fst (post this params st) =
          Inl (Error (join [CHR 0x0A]
            (map (\<lambda>e. ''['' @ module e @ ''] '' @ code e @ '': '' @ text_field e) entries)))
      \<and> console (snd (post this params st)) =
          console st @ map (\<lambda>w. Warn (Yellow (''['' @ module w @ ''] '' @ code w @ '': ''
                                                @ text_field w))) ws)"
proof -
  have spelled: "message found =
      join [CHR 0x0A]
        (map (\<lambda>e. ''['' @ module e @ ''] '' @ code e @ '': '' @ text_field e) entries)"
    if "found = ErrorsArray entries \<or> found = ErrorsObject entry \<and> entries = [entry]" for found
    using that by (auto simp: message_def line_feed_def format_entry_def [abs_def])
  show ?thesis
  proof (intro conjI impI)
    assume a: "createSearchParams params = Inr search
      \<and> client this (Request GET (endpoint this) (SearchParams search)) (net st) = (Inr result, n)
      \<and> warnings result = Some ws
      \<and> (errors result = Some (ErrorsArray entries)
          \<or> errors result = Some (ErrorsObject entry) \<and> entries = [entry])"
    then obtain found where f: "errors result = Some found"
      and shape: "found = ErrorsArray entries \<or> found = ErrorsObject entry \<and> entries = [entry]"
      by auto
    from a f have "fst (get this params st) = Inl (Error (message found))"
      using get_response(1) [of params search this st result n] by simp
    with spelled [OF shape] show "fst (get this params st) =
          Inl (Error (join [CHR 0x0A]
            (map (\<lambda>e. ''['' @ module e @ ''] '' @ code e @ '': '' @ text_field e) entries)))"
      by simp
    from a show "console (snd (get this params st)) =
          console st @ map (\<lambda>w. Warn (Yellow (''['' @ module w @ ''] '' @ code w @ '': ''
                                                @ text_field w))) ws"
      using get_response(2) [of params search this st result n]
      by (simp add: checkWarnings_Some format_entry_def)
  next
    assume a: "createSearchParams params = Inr search
      \<and> client this (Request POST (endpoint this) (Form (fromEntries search))) (net st)
          = (Inr result, n)
      \<and> warnings result = Some ws
      \<and> (errors result = Some (ErrorsArray entries)
          \<or> errors result = Some (ErrorsObject entry) \<and> entries = [entry])"
    then obtain found where f: "errors result = Some found"
      and shape: "found = ErrorsArray entries \<or> found = ErrorsObject entry \<and> entries = [entry]"
      by auto
    from a f have "fst (post this params st) = Inl (Error (message found))"
      using post_response(1) [of params search this st result n] by simp
    with spelled [OF shape] show "fst (post this params st) =
          Inl (Error (join [CHR 0x0A]
            (map (\<lambda>e. ''['' @ module e @ ''] '' @ code e @ '': '' @ text_field e) entries)))"
      by simp
    from a show "console (snd (post this params st)) =
          console st @ map (\<lambda>w. Warn (Yellow (''['' @ module w @ ''] '' @ code w @ '': ''
                                                @ text_field w))) ws"
      using post_response(2) [of params search this st result n]
      by (simp add: checkWarnings_Some format_entry_def)
  qed
qed

theorem warnings_before_errors_witness:
  "fst (get (answering \<lparr>warnings = Some [deprecated, badvalue],
                        errors = Some (ErrorsArray [badvalue, deprecated]), docref = None\<rparr>)
          example_params quiet)
     = Inl (Error (''[main] badvalue: Unrecognized value'' @ [CHR 0x0A]
                    @ ''[query] deprecation: Old parameter''))
 \<and> console (snd (get (answering \<lparr>warnings = Some [deprecated, badvalue],
                        errors = Some (ErrorsArray [badvalue, deprecated]), docref = None\<rparr>)
          example_params quiet))
     = [Warn (Yellow ''[query] deprecation: Old parameter''),
        Warn (Yellow ''[main] badvalue: Unrecognized value'')]
 \<and> fst (post (answering \<lparr>warnings = Some [deprecated, badvalue],
                        errors = Some (ErrorsArray [badvalue, deprecated]), docref = None\<rparr>)
          example_params quiet)
     = Inl (Error (''[main] badvalue: Unrecognized value'' @ [CHR 0x0A]
                    @ ''[query] deprecation: Old parameter''))
 \<and> console (snd (post (answering \<lparr>warnings = Some [deprecated, badvalue],
                        errors = Some (ErrorsArray [badvalue, deprecated]), docref = None\<rparr>)
          example_params quiet))
     = [Warn (Yellow ''[query] deprecation: Old parameter''),
        Warn (Yellow ''[main] badvalue: Unrecognized value'')]"
proof -
  let ?body = "\<lparr>warnings = Some [deprecated, badvalue],
                 errors = Some (ErrorsArray [badvalue, deprecated]), docref = None\<rparr>"
  note both = warnings_before_errors [where params = example_params
      and this = "answering ?body" and st = quiet and result = ?body and n = "Suc 0"
      and ws = "[deprecated, badvalue]" and entries = "[badvalue, deprecated]"]
  have lines: "console quiet @ map (\<lambda>w. Warn (Yellow (''['' @ module w @ ''] '' @ code w @ '': ''
                                                @ text_field w))) [deprecated, badvalue]
      = [Warn (Yellow ''[query] deprecation: Old parameter''),
         Warn (Yellow ''[main] badvalue: Unrecognized value'')]"
    by (simp add: quiet_def deprecated_def badvalue_def)
  have msg: "join [CHR 0x0A]
        (map (\<lambda>e. ''['' @ module e @ ''] '' @ code e @ '': '' @ text_field e)
           [badvalue, deprecated])
      = ''[main] badvalue: Unrecognized value'' @ [CHR 0x0A]
          @ ''[query] deprecation: Old parameter''"
    by (simp add: deprecated_def badvalue_def)
  from both have "fst (get (answering ?body) example_params quiet)
        = Inl (Error (join [CHR 0x0A]
            (map (\<lambda>e. ''['' @ module e @ ''] '' @ code e @ '': '' @ text_field e)
               [badvalue, deprecated])))
      \<and> console (snd (get (answering ?body) example_params quiet)) =
          console quiet @ map (\<lambda>w. Warn (Yellow (''['' @ module w @ ''] '' @ code w @ '': ''
                                                @ text_field w))) [deprecated, badvalue]"
    by (simp add: example_search answering_client)
  moreover from both have "fst (post (answering ?body) example_params quiet)
        = Inl (Error (join [CHR 0x0A]
            (map (\<lambda>e. ''['' @ module e @ ''] '' @ code e @ '': '' @ text_field e)
               [badvalue, deprecated])))
      \<and> console (snd (post (answering ?body) example_params quiet)) =
          console quiet @ map (\<lambda>w. Warn (Yellow (''['' @ module w @ ''] '' @ code w @ '': ''
                                                @ text_field w))) [deprecated, badvalue]"
    by (simp add: example_search answering_client)
  ultimately show ?thesis unfolding lines msg by simp
qed

subsection \<open>Claims about the requests\<close>

text \<open>
  Claim C8. For every parameter object, \<^verbatim>\<open>post\<close> hands the library one request whose
  form holds exactly the name/value pairs of the search parameters that \<^verbatim>\<open>get\<close> hands
  over for the same object: the names of the search parameters are distinct, and the form
  maps a name to a value just when the pair is among them. When the serialisation throws,
  neither method hands over a request.
\<close>

theorem post_sends_pairs_of_get:
  "(createSearchParams params = Inr search \<longrightarrow>
      sent (snd (get this params st)) =
        sent st @ [Request GET (endpoint this) (SearchParams search)]
    \<and> sent (snd (post this params st)) =
        sent st @ [Request POST (endpoint this) (Form (fromEntries search))]
    \<and> distinct (map fst search)
    \<and> (\<forall>name v. fromEntries search name = Some v \<longleftrightarrow> (name, v) \<in> set search))
 \<and> (createSearchParams params = Inl e \<longrightarrow>
      sent (snd (get this params st)) = sent st \<and> sent (snd (post this params st)) = sent st)"
proof (intro conjI impI allI)
  assume ok: "createSearchParams params = Inr search"
  show "sent (snd (get this params st)) =
        sent st @ [Request GET (endpoint this) (SearchParams search)]"
    using ok by (rule get_sent)
  show "sent (snd (post this params st)) =
        sent st @ [Request POST (endpoint this) (Form (fromEntries search))]"
    using ok by (rule post_sent)
  show dist: "distinct (map fst search)"
    using ok by (rule createSearchParams_distinct)
  fix name v
  show "fromEntries search name = Some v \<longleftrightarrow> (name, v) \<in> set search"
    using dist by (simp add: fromEntries_distinct)
next
  assume "createSearchParams params = Inl e"
  then show "sent (snd (get this params st)) = sent st"
    by (simp add: get_throws_before_request)
next
  assume "createSearchParams params = Inl e"
  then show "sent (snd (post this params st)) = sent st"
    by (simp add: post_throws_before_request)
qed

theorem post_sends_pairs_of_get_witness:
  "sent (snd (get (answering \<lparr>warnings = None, errors = None, docref = None\<rparr>)
                example_params quiet))
     = [Request GET example_endpoint
          (SearchParams [(''action'', ''ignoredOnPurpose''), (''list'', ''foo''),
             (''format'', ''json''), (''formatversion'', ''2''), (''errorformat'', ''plaintext'')])]
 \<and> sent (snd (post (answering \<lparr>warnings = None, errors = None, docref = None\<rparr>)
                example_params quiet))
     = [Request POST example_endpoint
          (Form (fromEntries [(''action'', ''ignoredOnPurpose''), (''list'', ''foo''),
             (''format'', ''json''), (''formatversion'', ''2''), (''errorformat'', ''plaintext'')]))]
 \<and> fromEntries [(''action'', ''ignoredOnPurpose''), (''list'', ''foo''),
             (''format'', ''json''), (''formatversion'', ''2''), (''errorformat'', ''plaintext'')]
      ''list'' = Some ''foo''
 \<and> fromEntries [(''action'', ''ignoredOnPurpose''), (''list'', ''foo''),
             (''format'', ''json''), (''formatversion'', ''2''), (''errorformat'', ''plaintext'')]
      ''errorformat'' = Some ''plaintext''"
proof -
  let ?search = "[(''action'', ''ignoredOnPurpose''), (''list'', ''foo''),
             (''format'', ''json''), (''formatversion'', ''2''), (''errorformat'', ''plaintext'')]"
  note same = post_sends_pairs_of_get [of example_params ?search
      "answering \<lparr>warnings = None, errors = None, docref = None\<rparr>" quiet]
  from same example_search
  have pairs: "\<forall>name v. fromEntries ?search name = Some v \<longleftrightarrow> (name, v) \<in> set ?search"
    by blast
  have "fromEntries ?search ''list'' = Some ''foo''"
    using pairs by simp
  moreover have "fromEntries ?search ''errorformat'' = Some ''plaintext''"
    using pairs by simp
  moreover from same example_search have
    "sent (snd (get (answering \<lparr>warnings = None, errors = None, docref = None\<rparr>)
                example_params quiet)) = [Request GET example_endpoint (SearchParams ?search)]"
    by (simp add: quiet_def answering_def)
  moreover from same example_search have
    "sent (snd (post (answering \<lparr>warnings = None, errors = None, docref = None\<rparr>)
                example_params quiet))
       = [Request POST example_endpoint (Form (fromEntries ?search))]"
    by (simp add: quiet_def answering_def)
  ultimately show ?thesis by blast
qed

text \<open>
  Claim C6. For every parameter object whose serialisation returns, \<^verbatim>\<open>query\<close> hands
  the library one GET request; its search parameters hold \<^verbatim>\<open>action\<close> once, with the
  value \<^verbatim>\<open>query\<close>, and under every other name what the serialisation of the caller's
  object holds; and when the response has no errors, \<^verbatim>\<open>query\<close> returns the
  \<^verbatim>\<open>query\<close> field of the body, not the body.
\<close>

theorem query_forces_action:
  assumes "distinct (map fst params)" and "createSearchParams params = Inr search0"
  shows "\<exists>search.
           sent (snd (query this params st)) =
             sent st @ [Request GET (endpoint this) (SearchParams search)]
         \<and> search_getAll search ''action'' = [''query'']
         \<and> (\<forall>name. name \<noteq> ''action'' \<longrightarrow> search_getAll search name = search_getAll search0 name)
         \<and> (\<forall>result n.
               client this (Request GET (endpoint this) (SearchParams search)) (net st)
                 = (Inr result, n) \<and> errors result = None
               \<longrightarrow> fst (query this params st) = Inr (query_field result))"
proof -
  let ?params = "object_set ''action'' (Single (PString ''query'')) params"
  have dist: "distinct (map fst ?params)" using assms(1) by (rule distinct_object_set)
  have mem: "(''action'', Single (PString ''query'')) \<in> set ?params" by (rule object_set_same)
  from assms(2) have "\<forall>(k, v) \<in> set params. \<not> has_invalid_date v"
    using createSearchParams_returns [of params] by blast
  with object_set_subset [of "''action''" "Single (PString ''query'')" params]
  have "\<forall>(k, v) \<in> set ?params. \<not> has_invalid_date v" by auto
  then obtain search where ok: "createSearchParams ?params = Inr search"
    using createSearchParams_returns [of ?params] by blast
  from createSearchParams_entry [OF ok dist mem]
  have action: "search_getAll search ''action'' = [''query'']"
    by (simp add: includes_pipe_def)
  from assms(2) obtain s1 where run1: "params_loop params [] = Inr s1"
    and out1: "search0 = search_set ''errorformat'' ''plaintext''
                (search_set ''formatversion'' ''2'' (search_set ''format'' ''json'' s1))"
    by (auto simp: createSearchParams_def split: sum.splits)
  from ok obtain s2 where run2: "params_loop ?params [] = Inr s2"
    and out2: "search = search_set ''errorformat'' ''plaintext''
                (search_set ''formatversion'' ''2'' (search_set ''format'' ''json'' s2))"
    by (auto simp: createSearchParams_def split: sum.splits)
  have others: "search_getAll search name = search_getAll search0 name"
    if "name \<noteq> ''action''" for name
    using params_loop_object_set [OF assms(1) run1 run2 that]
    unfolding out1 out2 search_getAll_final by simp
  have sent: "sent (snd (query this params st)) =
      sent st @ [Request GET (endpoint this) (SearchParams search)]"
  proof -
    obtain r st1 where g: "get this ?params st = (r, st1)" by (cases "get this ?params st")
    with get_sent [OF ok, of this st] show ?thesis
      by (cases r) (auto simp: query_def)
  qed
  have unwrap: "fst (query this params st) = Inr (query_field result)"
    if "client this (Request GET (endpoint this) (SearchParams search)) (net st) = (Inr result, n)"
      and "errors result = None" for result n
    using query_response(1) [OF ok that(1)] that(2) by simp
  from sent action others unwrap show ?thesis by blast
qed

theorem query_forces_action_witness:
  "sent (snd (query (answering \<lparr>warnings = None, errors = None, docref = None,
                                 batchcomplete = Inl True, query_field = ''pages''\<rparr>)
                example_params quiet))
     = [Request GET example_endpoint
          (SearchParams [(''action'', ''query''), (''list'', ''foo''), (''format'', ''json''),
             (''formatversion'', ''2''), (''errorformat'', ''plaintext'')])]
 \<and> search_toString [(''action'', ''query''), (''list'', ''foo''), (''format'', ''json''),
             (''formatversion'', ''2''), (''errorformat'', ''plaintext'')]
     = ''action=query&list=foo&format=json&formatversion=2&errorformat=plaintext''
 \<and> fst (query (answering \<lparr>warnings = None, errors = None, docref = None,
                                 batchcomplete = Inl True, query_field = ''pages''\<rparr>)
                example_params quiet)
     = Inr ''pages''"
proof -
  let ?body = "\<lparr>warnings = None, errors = None, docref = None,
                 batchcomplete = Inl True, query_field = ''pages''\<rparr>"
  let ?search = "[(''action'', ''query''), (''list'', ''foo''), (''format'', ''json''),
             (''formatversion'', ''2''), (''errorformat'', ''plaintext'')]"
  have keys: "distinct (map fst example_params)" by (simp add: example_params_def)
  from query_forces_action [OF keys example_search, of "answering ?body" quiet]
  obtain search where
    sent: "sent (snd (query (answering ?body) example_params quiet)) =
             sent quiet @ [Request GET (endpoint (answering ?body)) (SearchParams search)]"
    and unwrap: "\<forall>result n.
               client (answering ?body) (Request GET (endpoint (answering ?body))
                   (SearchParams search)) (net quiet) = (Inr result, n) \<and> errors result = None
               \<longrightarrow> fst (query (answering ?body) example_params quiet) = Inr (query_field result)"
    by blast
  have "sent (snd (query (answering ?body) example_params quiet)) =
          sent quiet @ [Request GET (endpoint (answering ?body)) (SearchParams ?search)]"
    using query_response(3) [OF example_query_search answering_client] .
  with sent have search: "search = ?search" by simp
  from unwrap answering_client [of ?body]
  have "fst (query (answering ?body) example_params quiet) = Inr (query_field ?body)"
    by (metis MediaWikiResponseBody.select_convs(2))
  then have result: "fst (query (answering ?body) example_params quiet) = Inr ''pages''"
    by simp
  have rendered: "search_toString ?search
      = ''action=query&list=foo&format=json&formatversion=2&errorformat=plaintext''"
    by (simp add: search_toString_def urlencode_def urlencode_byte_def)
  from sent search have "sent (snd (query (answering ?body) example_params quiet))
      = [Request GET example_endpoint (SearchParams ?search)]"
    by (simp add: quiet_def answering_def)
  with rendered result show ?thesis by blast
qed

subsection \<open>Claim about the construction\<close>

text \<open>
  A metadata file that is there and well formed gives the user agent of both versions.
\<close>

lemma getUserAgent_example:
  "getUserAgent [''/app/package.json'' \<mapsto> Inr (JObject [(''version'', JString ''1.0.0''),
       (''dependencies'', JObject [(''got'', JString ''^12.5.3'')])])] ''/app/package.json''
     = Inr ''HuijiMWClient/1.0.0 Got/12.5.3''"
  by (simp add: getUserAgent_def template_toString_def)

text \<open>
  Claim C7, amended. \<^verbatim>\<open>getUserAgent\<close> guards the read with \<^verbatim>\<open>fs.existsSync\<close> and
  catches nothing. When the metadata file does not exist, the user agent is
  \<^verbatim>\<open>HuijiMWClient/Unknown\<close> and the constructor returns the client. The claim as stated
  also covers a file that cannot be parsed, and there it fails (the counterexample).
\<close>

theorem missing_metadata_tolerated:
  assumes "files path = None"
  shows "getUserAgent files path = Inr ''HuijiMWClient/Unknown''
       \<and> constructor got_extend files path url =
           Inr \<lparr>endpoint = url, client = got_extend ''HuijiMWClient/Unknown''\<rparr>"
  using assms by (simp add: getUserAgent_def constructor_def)

theorem missing_metadata_tolerated_witness:
  "getUserAgent Map.empty ''/app/package.json'' = Inr ''HuijiMWClient/Unknown''
 \<and> constructor (\<lambda>userAgent. client (answering \<lparr>warnings = None, errors = None, docref = None\<rparr>))
      Map.empty ''/app/package.json'' example_endpoint
     = Inr \<lparr>endpoint = example_endpoint,
            client = client (answering \<lparr>warnings = None, errors = None, docref = None\<rparr>)\<rparr>"
proof -
  have absent: "(Map.empty :: files) ''/app/package.json'' = None" by simp
  from missing_metadata_tolerated [OF absent,
      where got_extend = "\<lambda>userAgent. client (answering \<lparr>warnings = None, errors = None, docref = None\<rparr>)"
        and url = example_endpoint]
  show ?thesis by simp
qed

text \<open>
  A metadata file that exists and is empty: \<^verbatim>\<open>JSON.parse\<close> throws a SyntaxError, which
  leaves \<^verbatim>\<open>getUserAgent\<close> and the constructor. Likewise a file that parses and has no
  \<^verbatim>\<open>dependencies\<close>: reading \<^verbatim>\<open>got\<close> of \<^verbatim>\<open>undefined\<close> throws a TypeError.
\<close>

theorem unparsable_metadata_counterexample:
  "getUserAgent [''/app/package.json'' \<mapsto> Inl (SyntaxError ''Unexpected end of JSON input'')]
      ''/app/package.json''
     = Inl (SyntaxError ''Unexpected end of JSON input'')
 \<and> constructor (\<lambda>userAgent. client (answering \<lparr>warnings = None, errors = None, docref = None\<rparr>))
      [''/app/package.json'' \<mapsto> Inl (SyntaxError ''Unexpected end of JSON input'')]
      ''/app/package.json'' example_endpoint
     = Inl (SyntaxError ''Unexpected end of JSON input'')
 \<and> getUserAgent [''/app/package.json'' \<mapsto> Inr (JObject [(''version'', JString ''1.0.0'')])]
      ''/app/package.json''
     = Inl (TypeError ''Cannot read properties of undefined (reading got)'')"
  by (simp add: getUserAgent_def constructor_def)

end
